theory Spec2Isabelle
  imports Complex_Main
begin

section \<open>Scaled dot-product attention of the QKV notebook\<close>

text \<open>
  The notebook \<^verbatim>\<open>C4_W1_Ungraded_Lab_2_QKV_Attention.ipynb\<close> defines five functions:
  \<^verbatim>\<open>tokenize\<close>, \<^verbatim>\<open>embed\<close>, \<^verbatim>\<open>softmax\<close>, \<^verbatim>\<open>calculate_weights\<close> and \<^verbatim>\<open>attention_qkv\<close>.
  They are embedded here over two-dimensional numpy arrays.

  Numbers: the elements of an array are of a type \<open>'f\<close> that stands for \<^verbatim>\<open>float64\<close>, and the
  arithmetic numpy performs on them is a parameter of every function that computes: a
  record \<open>'f arith\<close> of the operations the code calls. Nothing is assumed of these
  operations, so a theorem stated for every arithmetic holds for the rounding, the
  overflow to \<^verbatim>\<open>inf\<close> and the \<^verbatim>\<open>nan\<close> of IEEE doubles. The exact arithmetic of the real
  numbers, \<open>exact\<close>, is one instance; it is used where a claim is about the mathematics
  and to show that hypotheses can be met.

  Exceptions are values of type \<open>error\<close>; a function that can raise returns \<open>error + 'a\<close>.
  None of the five functions reads a global variable, keeps state between calls or draws
  a random number, so each is a function of its arguments alone and no state is threaded.
\<close>

subsection \<open>Errors\<close>

datatype error =
    ShapeMismatch   \<comment> \<open>numpy's \<^verbatim>\<open>ValueError\<close> for shapes that are not aligned or cannot be broadcast\<close>
  | AxisError       \<comment> \<open>numpy's \<^verbatim>\<open>AxisError\<close>: axis out of bounds for the array's dimension\<close>
  | IndexError      \<comment> \<open>index out of bounds\<close>
  | AssertionError  \<comment> \<open>a failed \<^verbatim>\<open>assert\<close>\<close>

subsection \<open>Two-dimensional arrays\<close>

text \<open>
  A numpy array of dimension two carries its shape and its elements. The shape is kept
  apart from the rows because an array may have no rows and still have columns
  (\<^verbatim>\<open>np.zeros((0, 3))\<close>), and the code reads \<^verbatim>\<open>shape[1]\<close>.
\<close>

record 'f ndarray =
  shape0 :: nat
  shape1 :: nat
  elems :: "'f list list"

definition wf_array :: "'f ndarray \<Rightarrow> bool" where
  "wf_array a \<longleftrightarrow>
     length (elems a) = shape0 a \<and> list_all (\<lambda>r. length r = shape1 a) (elems a)"

definition has_shape :: "'f ndarray \<Rightarrow> nat \<Rightarrow> nat \<Rightarrow> bool" where
  "has_shape a r c \<longleftrightarrow> wf_array a \<and> shape0 a = r \<and> shape1 a = c"

definition np_zeros :: "nat \<Rightarrow> nat \<Rightarrow> 'f::zero ndarray" where
  "np_zeros r c = \<lparr>shape0 = r, shape1 = c, elems = replicate r (replicate c 0)\<rparr>"

text \<open>\<^verbatim>\<open>a.T\<close>: the transposed array.\<close>

definition np_T :: "'f ndarray \<Rightarrow> 'f ndarray" where
  "np_T a = \<lparr>shape0 = shape1 a, shape1 = shape0 a,
            elems = map (\<lambda>j. map (\<lambda>r. r ! j) (elems a)) [0..<shape1 a]\<rparr>"

subsection \<open>The floating-point operations of numpy\<close>

text \<open>
  The operations on \<^verbatim>\<open>float64\<close> that the code reaches:
  \<^item> \<open>f_exp\<close>: \<^verbatim>\<open>np.exp\<close> of one element;
  \<^item> \<open>f_div\<close>: the quotient \<^verbatim>\<open>/\<close> of two elements;
  \<^item> \<open>f_sum\<close>: the sum \<^verbatim>\<open>np.sum\<close> forms of the elements along an axis, in the order and
    grouping numpy adds them;
  \<^item> \<open>f_dot\<close>: the entry \<^verbatim>\<open>np.dot\<close> forms from a row of its first and a column of its second
    argument (the entry is taken to depend on that row and column only);
  \<^item> \<open>f_sqrt\<close>: \<^verbatim>\<open>np.sqrt\<close> of the integer \<^verbatim>\<open>keys.shape[1]\<close>;
  \<^item> \<open>f_eq_one\<close>: the comparison \<^verbatim>\<open>== 1\<close> of the assertion.
\<close>

record 'f arith =
  f_exp :: "'f \<Rightarrow> 'f"
  f_div :: "'f \<Rightarrow> 'f \<Rightarrow> 'f"
  f_sum :: "'f list \<Rightarrow> 'f"
  f_dot :: "'f list \<Rightarrow> 'f list \<Rightarrow> 'f"
  f_sqrt :: "nat \<Rightarrow> 'f"
  f_eq_one :: "'f \<Rightarrow> bool"

text \<open>The arithmetic of the real numbers, without rounding.\<close>

definition exact :: "real arith" where
  "exact = \<lparr>f_exp = exp, f_div = (/), f_sum = sum_list,
            f_dot = (\<lambda>u v. sum_list (map2 (*) u v)),
            f_sqrt = (\<lambda>n. sqrt (real n)), f_eq_one = (\<lambda>x. x = 1)\<rparr>"

subsection \<open>Array operations\<close>

text \<open>
  \<^verbatim>\<open>np.dot(a, b)\<close> on two-dimensional arrays is the matrix product; it raises
  \<^verbatim>\<open>ValueError\<close> when the columns of \<open>a\<close> and the rows of \<open>b\<close> differ in number.
\<close>

definition np_dot :: "'f arith \<Rightarrow> 'f ndarray \<Rightarrow> 'f ndarray \<Rightarrow> error + 'f ndarray" where
  "np_dot fl a b =
     (if shape1 a \<noteq> shape0 b then Inl ShapeMismatch
      else Inr \<lparr>shape0 = shape0 a, shape1 = shape1 b,
                elems = map (\<lambda>r. map (\<lambda>j. f_dot fl r (map (\<lambda>row. row ! j) (elems b)))
                                      [0..<shape1 b])
                            (elems a)\<rparr>)"

text \<open>\<^verbatim>\<open>a / s\<close> for a scalar \<open>s\<close>, and \<^verbatim>\<open>np.exp(a)\<close>: element by element.\<close>

definition np_div_scalar :: "'f arith \<Rightarrow> 'f ndarray \<Rightarrow> 'f \<Rightarrow> 'f ndarray" where
  "np_div_scalar fl a s = a\<lparr>elems := map (map (\<lambda>x. f_div fl x s)) (elems a)\<rparr>"

definition np_exp :: "'f arith \<Rightarrow> 'f ndarray \<Rightarrow> 'f ndarray" where
  "np_exp fl a = a\<lparr>elems := map (map (f_exp fl)) (elems a)\<rparr>"

text \<open>
  \<^verbatim>\<open>np.sum(a, axis=axis)\<close> gives a one-dimensional array (a list): the column sums for
  axis 0, the row sums for axis 1. Negative axes count from the last one; any other
  axis raises \<^verbatim>\<open>AxisError\<close>.
\<close>

definition np_sum :: "'f arith \<Rightarrow> 'f ndarray \<Rightarrow> int \<Rightarrow> error + 'f list" where
  "np_sum fl a axis =
     (if axis = 0 \<or> axis = -2 then
        Inr (map (\<lambda>j. f_sum fl (map (\<lambda>r. r ! j) (elems a))) [0..<shape1 a])
      else if axis = 1 \<or> axis = -1 then Inr (map (f_sum fl) (elems a))
      else Inl AxisError)"

text \<open>\<^verbatim>\<open>np.expand_dims(v, axis)\<close> of a one-dimensional \<open>v\<close>: a row (axis 0) or a column (axis 1).\<close>

definition np_expand_dims :: "'f list \<Rightarrow> int \<Rightarrow> error + 'f ndarray" where
  "np_expand_dims v axis =
     (if axis = 0 \<or> axis = -2 then Inr \<lparr>shape0 = 1, shape1 = length v, elems = [v]\<rparr>
      else if axis = 1 \<or> axis = -1 then
        Inr \<lparr>shape0 = length v, shape1 = 1, elems = map (\<lambda>x. [x]) v\<rparr>
      else Inl AxisError)"

text \<open>
  An arithmetic operator on two arrays, \<^verbatim>\<open>a / b\<close> or \<^verbatim>\<open>a - b\<close>, with numpy's broadcasting:
  two extents are compatible when they are equal or one of them is 1, and the array of
  extent 1 is repeated along that axis.
\<close>

definition broadcast_dim :: "nat \<Rightarrow> nat \<Rightarrow> nat option" where
  "broadcast_dim m n =
     (if m = n then Some m else if m = 1 then Some n else if n = 1 then Some m else None)"

definition bget :: "'f ndarray \<Rightarrow> nat \<Rightarrow> nat \<Rightarrow> 'f" where
  "bget a i j = elems a ! (if shape0 a = 1 then 0 else i) ! (if shape1 a = 1 then 0 else j)"

definition np_broadcast :: "('f \<Rightarrow> 'f \<Rightarrow> 'f) \<Rightarrow> 'f ndarray \<Rightarrow> 'f ndarray \<Rightarrow> error + 'f ndarray" where
  "np_broadcast f a b =
     (case (broadcast_dim (shape0 a) (shape0 b), broadcast_dim (shape1 a) (shape1 b)) of
        (Some r, Some c) \<Rightarrow>
          Inr \<lparr>shape0 = r, shape1 = c,
               elems = map (\<lambda>i. map (\<lambda>j. f (bget a i j) (bget b i j)) [0..<c]) [0..<r]\<rparr>
      | _ \<Rightarrow> Inl ShapeMismatch)"

definition np_divide :: "'f arith \<Rightarrow> 'f ndarray \<Rightarrow> 'f ndarray \<Rightarrow> error + 'f ndarray" where
  "np_divide fl a b = np_broadcast (f_div fl) a b"

subsection \<open>softmax\<close>

text \<open>
  \<^verbatim>\<open>
  def softmax(x, axis=0):
      return np.exp(x) / np.expand_dims(np.sum(np.exp(x), axis=axis), axis)
  \<close>
\<close>

definition softmax :: "'f arith \<Rightarrow> 'f ndarray \<Rightarrow> int \<Rightarrow> error + 'f ndarray" where
  "softmax fl x axis =
     (case np_sum fl (np_exp fl x) axis of
        Inl e \<Rightarrow> Inl e
      | Inr s \<Rightarrow>
          (case np_expand_dims s axis of
             Inl e \<Rightarrow> Inl e
           | Inr d \<Rightarrow> np_divide fl (np_exp fl x) d))"

subsection \<open>calculate_weights\<close>

text \<open>
  \<^verbatim>\<open>
  def calculate_weights(queries, keys):
      dot = np.dot(queries, keys.T) / np.sqrt(keys.shape[1])
      weights = softmax(dot, axis=1)
      assert weights.sum(axis=1)[0] == 1, "Each row in weights must sum to 1"
      return weights
  \<close>
  The assertion compares the floating-point sum of the first row with 1, exactly; it
  reads no other row.
\<close>

definition np_index :: "'a list \<Rightarrow> nat \<Rightarrow> error + 'a" where
  "np_index v i = (if i < length v then Inr (v ! i) else Inl IndexError)"

definition calculate_weights :: "'f arith \<Rightarrow> 'f ndarray \<Rightarrow> 'f ndarray \<Rightarrow> error + 'f ndarray" where
  "calculate_weights fl queries keys =
     (case np_dot fl queries (np_T keys) of
        Inl e \<Rightarrow> Inl e
      | Inr qk \<Rightarrow>
          (case softmax fl (np_div_scalar fl qk (f_sqrt fl (shape1 keys))) 1 of
             Inl e \<Rightarrow> Inl e
           | Inr weights \<Rightarrow>
               (case np_sum fl weights 1 of
                  Inl e \<Rightarrow> Inl e
                | Inr totals \<Rightarrow>
                    (case np_index totals 0 of
                       Inl e \<Rightarrow> Inl e
                     | Inr s \<Rightarrow> if f_eq_one fl s then Inr weights else Inl AssertionError))))"

subsection \<open>attention_qkv\<close>


subsection \<open>tokenize\<close>

text \<open>
  \<^verbatim>\<open>
  def tokenize(sentence, token_mapping):
      tokenized = []
      for word in sentence.lower().split(" "):
          try:
              tokenized.append(token_mapping[word])
          except KeyError:
              tokenized.append(-1)
      return tokenized
  \<close>
  A sentence is a \<^typ>\<open>string\<close> of ASCII characters; \<open>str_lower\<close> lowers the capitals
  (codes 65 to 90) and leaves every other character as it is (Python would also lower
  the capitals beyond ASCII). \<open>str_split\<close> is \<^verbatim>\<open>split(" ")\<close>: it cuts at every single space, so
  two spaces in a row give an empty word and the empty sentence gives one empty word.
\<close>

definition lower_char :: "char \<Rightarrow> char" where
  "lower_char c =
     (let n = (of_char c :: nat) in if 65 \<le> n \<and> n \<le> 90 then char_of (n + 32) else c)"

definition str_lower :: "string \<Rightarrow> string" where
  "str_lower s = map lower_char s"

fun str_split :: "string \<Rightarrow> string list" where
  "str_split [] = [[]]"
| "str_split (c # cs) =
     (if c = CHR '' '' then [] # str_split cs
      else (case str_split cs of [] \<Rightarrow> [[c]] | w # ws \<Rightarrow> (c # w) # ws))"

definition tokenize :: "string \<Rightarrow> (string \<rightharpoonup> int) \<Rightarrow> int list" where
  "tokenize sentence token_mapping =
     map (\<lambda>word. case token_mapping word of Some t \<Rightarrow> t | None \<Rightarrow> -1)
         (str_split (str_lower sentence))"

subsection \<open>embed\<close>

text \<open>
  \<^verbatim>\<open>
  def embed(tokens, embeddings):
      embed_size = embeddings.shape[1]
      output = np.zeros((len(tokens), embed_size))
      for i, token in enumerate(tokens):
          if token == -1:
              output[i] = np.zeros((1, embed_size))
          else:
              output[i] = embeddings[token]
      return output
  \<close>
  \<open>np_getitem\<close> is \<^verbatim>\<open>embeddings[token]\<close>: a negative index counts from the last row, and
  an index outside \<open>[-n, n)\<close> raises \<^verbatim>\<open>IndexError\<close>. The loop threads \<open>output\<close>. It copies
  elements and computes nothing, so it needs no arithmetic, only the zero of \<^verbatim>\<open>np.zeros\<close>.
\<close>

definition np_getitem :: "'f ndarray \<Rightarrow> int \<Rightarrow> error + 'f list" where
  "np_getitem a t =
     (let n = int (shape0 a); j = (if t < 0 then n + t else t)
      in if 0 \<le> j \<and> j < n then Inr (elems a ! nat j) else Inl IndexError)"

definition set_row :: "'f ndarray \<Rightarrow> nat \<Rightarrow> 'f list \<Rightarrow> 'f ndarray" where
  "set_row output i row = output\<lparr>elems := (elems output)[i := row]\<rparr>"

fun embed_loop ::
  "'f::zero ndarray \<Rightarrow> (nat \<times> int) list \<Rightarrow> 'f ndarray \<Rightarrow> error + 'f ndarray" where
  "embed_loop embeddings [] output = Inr output"
| "embed_loop embeddings ((i, token) # rest) output =
     (if token = -1 then
        embed_loop embeddings rest (set_row output i (replicate (shape1 embeddings) 0))
      else
        (case np_getitem embeddings token of
           Inl e \<Rightarrow> Inl e
         | Inr row \<Rightarrow> embed_loop embeddings rest (set_row output i row)))"

definition embed :: "int list \<Rightarrow> 'f::zero ndarray \<Rightarrow> error + 'f ndarray" where
  "embed tokens embeddings =
     embed_loop embeddings (enumerate 0 tokens) (np_zeros (length tokens) (shape1 embeddings))"

subsection \<open>The specification's formulas\<close>

text \<open>
  The weight matrix as the specification words it: the dot product of every query with
  every key, divided by the square root of the embedding dimension, and each row of
  these scores normalised by the softmax on its own. The formulas are computed in the
  arithmetic \<open>fl\<close>, that of the code when \<open>fl\<close> is numpy's.
\<close>

definition spec_row_softmax :: "'f arith \<Rightarrow> 'f list \<Rightarrow> 'f list" where
  "spec_row_softmax fl r = map (\<lambda>x. f_div fl (f_exp fl x) (f_sum fl (map (f_exp fl) r))) r"

definition spec_scores :: "'f arith \<Rightarrow> 'f ndarray \<Rightarrow> 'f list \<Rightarrow> 'f list" where
  "spec_scores fl keys q =
     map (\<lambda>k. f_div fl (f_dot fl q k) (f_sqrt fl (shape1 keys))) (elems keys)"

definition spec_weights :: "'f arith \<Rightarrow> 'f ndarray \<Rightarrow> 'f ndarray \<Rightarrow> 'f ndarray" where
  "spec_weights fl queries keys =
     \<lparr>shape0 = shape0 queries, shape1 = shape0 keys,
      elems = map (\<lambda>q. spec_row_softmax fl (spec_scores fl keys q)) (elems queries)\<rparr>"

text \<open>
  What the assertion of \<open>calculate_weights\<close> tests of a row: that its floating-point sum
  compares equal to 1.
\<close>

definition row_sum_is_one :: "'f arith \<Rightarrow> 'f list \<Rightarrow> bool" where
  "row_sum_is_one fl r \<longleftrightarrow> f_eq_one fl (f_sum fl r)"

text \<open>
  The numerically stabilised softmax the specification recommends, over the real
  numbers: the maximum along the axis is subtracted from every element before
  exponentiating. \<open>np_max\<close> is the maximum along an axis (over an axis of extent 0 there
  is no element to shift, and the value chosen there is never used); \<open>np_subtract\<close> is the
  broadcasting difference.
\<close>

definition max_list :: "real list \<Rightarrow> real" where
  "max_list xs = (case xs of [] \<Rightarrow> 0 | x # ys \<Rightarrow> fold max ys x)"

definition np_max :: "real ndarray \<Rightarrow> int \<Rightarrow> error + real list" where
  "np_max a axis =
     (if axis = 0 \<or> axis = -2 then
        Inr (map (\<lambda>j. max_list (map (\<lambda>r. r ! j) (elems a))) [0..<shape1 a])
      else if axis = 1 \<or> axis = -1 then Inr (map max_list (elems a))
      else Inl AxisError)"

definition np_subtract :: "real ndarray \<Rightarrow> real ndarray \<Rightarrow> error + real ndarray" where
  "np_subtract a b = np_broadcast (-) a b"

definition softmax_stable :: "real ndarray \<Rightarrow> int \<Rightarrow> error + real ndarray" where
  "softmax_stable x axis =
     (case np_max x axis of
        Inl e \<Rightarrow> Inl e
      | Inr m \<Rightarrow>
          (case np_expand_dims m axis of
             Inl e \<Rightarrow> Inl e
           | Inr d \<Rightarrow>
               (case np_subtract x d of
                  Inl e \<Rightarrow> Inl e
                | Inr shifted \<Rightarrow> softmax exact shifted axis)))"

subsection \<open>Notions used to state what embed returns\<close>

text \<open>
  A token is usable when it is the sentinel or indexes a row of the embedding matrix,
  from the front or from the end; \<open>token_row\<close> is the row the loop stores for it.
\<close>

definition token_ok :: "'f ndarray \<Rightarrow> int \<Rightarrow> bool" where
  "token_ok embeddings t \<longleftrightarrow>
     t = -1 \<or> (- int (shape0 embeddings) \<le> t \<and> t < int (shape0 embeddings))"

definition token_row :: "'f::zero ndarray \<Rightarrow> int \<Rightarrow> 'f list" where
  "token_row embeddings t =
     (if t = -1 then replicate (shape1 embeddings) 0
      else elems embeddings ! nat (if t < 0 then int (shape0 embeddings) + t else t))"

section \<open>Properties\<close>

subsection \<open>Shapes\<close>

lemma wf_arrayD:
  "wf_array a \<Longrightarrow> length (elems a) = shape0 a"
  "wf_array a \<Longrightarrow> i < shape0 a \<Longrightarrow> length (elems a ! i) = shape1 a"
  "wf_array a \<Longrightarrow> r \<in> set (elems a) \<Longrightarrow> length r = shape1 a"
  by (auto simp: wf_array_def list_all_iff)

lemma length_spec_row_softmax [simp]: "length (spec_row_softmax fl r) = length r"
  by (simp add: spec_row_softmax_def)

lemma length_spec_scores [simp]: "length (spec_scores fl keys q) = length (elems keys)"
  by (simp add: spec_scores_def)

subsection \<open>Broadcasting\<close>

lemma bget_in_range: "i < shape0 a \<Longrightarrow> j < shape1 a \<Longrightarrow> bget a i j = elems a ! i ! j"
  by (auto simp: bget_def)

lemma bget_column: "shape1 b = 1 \<Longrightarrow> i < shape0 b \<Longrightarrow> bget b i j = elems b ! i ! 0"
  by (auto simp: bget_def)

lemma bget_row: "shape0 b = 1 \<Longrightarrow> j < shape1 b \<Longrightarrow> bget b i j = elems b ! 0 ! j"
  by (auto simp: bget_def)

lemma broadcast_dim_same [simp]: "broadcast_dim n n = Some n"
  by (simp add: broadcast_dim_def)

lemma broadcast_dim_one [simp]: "broadcast_dim n (Suc 0) = Some n"
  by (simp add: broadcast_dim_def)

lemma np_broadcast_column:
  assumes "shape0 b = shape0 a" and "shape1 b = 1"
  shows "np_broadcast f a b =
         Inr \<lparr>shape0 = shape0 a, shape1 = shape1 a,
              elems = map (\<lambda>i. map (\<lambda>j. f (elems a ! i ! j) (elems b ! i ! 0)) [0..<shape1 a])
                          [0..<shape0 a]\<rparr>"
proof -
  have "map (\<lambda>i. map (\<lambda>j. f (bget a i j) (bget b i j)) [0..<shape1 a]) [0..<shape0 a]
      = map (\<lambda>i. map (\<lambda>j. f (elems a ! i ! j) (elems b ! i ! 0)) [0..<shape1 a]) [0..<shape0 a]"
    using assms by (simp add: bget_in_range bget_column)
  then show ?thesis
    using assms by (simp add: np_broadcast_def)
qed

lemma np_broadcast_row:
  assumes "shape0 b = 1" and "shape1 b = shape1 a"
  shows "np_broadcast f a b =
         Inr \<lparr>shape0 = shape0 a, shape1 = shape1 a,
              elems = map (\<lambda>i. map (\<lambda>j. f (elems a ! i ! j) (elems b ! 0 ! j)) [0..<shape1 a])
                          [0..<shape0 a]\<rparr>"
proof -
  have "map (\<lambda>i. map (\<lambda>j. f (bget a i j) (bget b i j)) [0..<shape1 a]) [0..<shape0 a]
      = map (\<lambda>i. map (\<lambda>j. f (elems a ! i ! j) (elems b ! 0 ! j)) [0..<shape1 a]) [0..<shape0 a]"
    using assms by (simp add: bget_in_range bget_row)
  then show ?thesis
    using assms by (simp add: np_broadcast_def)
qed

lemma np_exp_simps [simp]:
  "shape0 (np_exp fl a) = shape0 a" "shape1 (np_exp fl a) = shape1 a"
  "elems (np_exp fl a) = map (map (f_exp fl)) (elems a)"
  by (simp_all add: np_exp_def)

subsection \<open>What the array operations compute on well-formed arrays\<close>

text \<open>
  Along axis 1 the source's softmax, with its broadcast division by the column of row
  sums, applies the row softmax to every row on its own, in any arithmetic.
\<close>

lemma softmax_axis1:
  assumes "wf_array x" and "axis = 1 \<or> axis = -1"
  shows "softmax fl x axis = Inr \<lparr>shape0 = shape0 x, shape1 = shape1 x,
                                  elems = map (spec_row_softmax fl) (elems x)\<rparr>"
proof -
  let ?r = "shape0 x" and ?c = "shape1 x"
  let ?d = "\<lparr>shape0 = length (elems x), shape1 = 1,
             elems = map (\<lambda>s. [s]) (map (f_sum fl) (elems (np_exp fl x)))\<rparr>"
  have len: "length (elems x) = ?r" using assms(1) by (rule wf_arrayD)
  have rows: "\<And>i. i < ?r \<Longrightarrow> length (elems x ! i) = ?c" using assms(1) by (rule wf_arrayD)
  have s: "np_sum fl (np_exp fl x) axis = Inr (map (f_sum fl) (elems (np_exp fl x)))"
    using assms(2) by (auto simp: np_sum_def)
  have e: "np_expand_dims (map (f_sum fl) (elems (np_exp fl x))) axis = Inr ?d"
    using assms(2) by (auto simp: np_expand_dims_def)
  have d: "np_divide fl (np_exp fl x) ?d =
           Inr \<lparr>shape0 = ?r, shape1 = ?c,
                elems = map (\<lambda>i. map (\<lambda>j. f_div fl (elems (np_exp fl x) ! i ! j) (elems ?d ! i ! 0))
                                       [0..<?c])
                            [0..<?r]\<rparr>"
    unfolding np_divide_def
    using np_broadcast_column [of ?d "np_exp fl x" "f_div fl"] by (simp add: len)
  have "map (\<lambda>i. map (\<lambda>j. f_div fl (elems (np_exp fl x) ! i ! j) (elems ?d ! i ! 0)) [0..<?c])
            [0..<?r]
        = map (spec_row_softmax fl) (elems x)"
  proof (rule nth_equalityI)
    show "length (map (\<lambda>i. map (\<lambda>j. f_div fl (elems (np_exp fl x) ! i ! j) (elems ?d ! i ! 0))
                               [0..<?c]) [0..<?r])
        = length (map (spec_row_softmax fl) (elems x))"
      by (simp add: len)
  next
    fix i
    assume "i < length (map (\<lambda>i. map (\<lambda>j. f_div fl (elems (np_exp fl x) ! i ! j)
                                            (elems ?d ! i ! 0)) [0..<?c]) [0..<?r])"
    then have i: "i < ?r" by simp
    have li: "length (elems x ! i) = ?c" using i by (rule rows)
    show "map (\<lambda>i. map (\<lambda>j. f_div fl (elems (np_exp fl x) ! i ! j) (elems ?d ! i ! 0)) [0..<?c])
              [0..<?r] ! i
        = map (spec_row_softmax fl) (elems x) ! i"
      using i li by (auto simp: len spec_row_softmax_def intro!: nth_equalityI)
  qed
  with s e d show ?thesis
    by (simp add: softmax_def)
qed

text \<open>The columns of \<^verbatim>\<open>keys.T\<close> are the keys, so \<^verbatim>\<open>np.dot\<close> pairs every query with every key.\<close>

lemma column_of_transposed:
  assumes K: "wf_array keys" and j: "j < shape0 keys"
  shows "map (\<lambda>row. row ! j) (elems (np_T keys)) = elems keys ! j"
proof (rule nth_equalityI)
  show "length (map (\<lambda>row. row ! j) (elems (np_T keys))) = length (elems keys ! j)"
    using K j by (simp add: np_T_def wf_arrayD)
next
  fix l
  assume "l < length (map (\<lambda>row. row ! j) (elems (np_T keys)))"
  then have "l < shape1 keys" by (simp add: np_T_def)
  then show "map (\<lambda>row. row ! j) (elems (np_T keys)) ! l = elems keys ! j ! l"
    using K j by (simp add: np_T_def wf_arrayD)
qed

lemma np_dot_transposed:
  assumes K: "wf_array keys" and D: "shape1 queries = shape1 keys"
  shows "np_dot fl queries (np_T keys) =
         Inr \<lparr>shape0 = shape0 queries, shape1 = shape0 keys,
              elems = map (\<lambda>q. map (\<lambda>k. f_dot fl q k) (elems keys)) (elems queries)\<rparr>"
proof -
  have lenK: "length (elems keys) = shape0 keys" using K by (rule wf_arrayD)
  have entry: "map (\<lambda>j. f_dot fl q (map (\<lambda>row. row ! j) (elems (np_T keys)))) [0..<shape0 keys]
             = map (\<lambda>k. f_dot fl q k) (elems keys)" for q
  proof -
    have "map (\<lambda>j. f_dot fl q (map (\<lambda>row. row ! j) (elems (np_T keys)))) [0..<shape0 keys]
        = map (\<lambda>j. f_dot fl q (elems keys ! j)) [0..<shape0 keys]"
      by (rule map_cong) (simp_all add: column_of_transposed [OF K])
    also have "\<dots> = map (\<lambda>k. f_dot fl q k) (elems keys)"
      by (rule nth_equalityI) (simp_all add: lenK)
    finally show ?thesis .
  qed
  have sh: "shape0 (np_T keys) = shape1 keys" "shape1 (np_T keys) = shape0 keys"
    by (simp_all add: np_T_def)
  show ?thesis
    unfolding np_dot_def sh using D by (simp add: entry)
qed

lemma wf_spec_weights:
  "wf_array queries \<Longrightarrow> wf_array keys \<Longrightarrow> wf_array (spec_weights fl queries keys)"
  by (simp add: wf_array_def spec_weights_def list_all_iff)

text \<open>
  \<open>calculate_weights\<close> in any arithmetic: the index \<^verbatim>\<open>[0]\<close> fails without a query row;
  otherwise the assertion decides on the first row of the softmax matrix alone.
\<close>

lemma calculate_weights_char:
  assumes Q: "wf_array queries" and K: "wf_array keys"
    and D: "shape1 queries = shape1 keys"
  shows "calculate_weights fl queries keys =
         (if shape0 queries = 0 then Inl IndexError
          else if row_sum_is_one fl (elems (spec_weights fl queries keys) ! 0)
          then Inr (spec_weights fl queries keys)
          else Inl AssertionError)"
proof -
  let ?s = "f_sqrt fl (shape1 keys)"
  let ?qk = "\<lparr>shape0 = shape0 queries, shape1 = shape0 keys,
              elems = map (\<lambda>q. map (\<lambda>k. f_dot fl q k) (elems keys)) (elems queries)\<rparr>"
  let ?W = "spec_weights fl queries keys"
  have lenQ: "length (elems queries) = shape0 queries" using Q by (rule wf_arrayD)
  have lenK: "length (elems keys) = shape0 keys" using K by (rule wf_arrayD)
  have dot: "np_dot fl queries (np_T keys) = Inr ?qk"
    using K D by (rule np_dot_transposed)
  have wf: "wf_array (np_div_scalar fl ?qk ?s)"
    by (simp add: wf_array_def np_div_scalar_def lenQ lenK list_all_iff)
  have sm: "softmax fl (np_div_scalar fl ?qk ?s) 1 = Inr ?W"
    using softmax_axis1 [OF wf, of 1 fl]
    by (simp add: np_div_scalar_def spec_weights_def spec_scores_def comp_def)
  have sums: "np_sum fl ?W 1 = Inr (map (f_sum fl) (elems ?W))"
    by (simp add: np_sum_def)
  have cw: "calculate_weights fl queries keys =
            (case np_index (map (f_sum fl) (elems ?W)) 0 of
               Inl e \<Rightarrow> Inl e
             | Inr s \<Rightarrow> if f_eq_one fl s then Inr ?W else Inl AssertionError)"
    by (simp add: calculate_weights_def dot sm sums)
  have lenW: "length (elems ?W) = shape0 queries"
    by (simp add: spec_weights_def lenQ)
  show ?thesis
  proof (cases "shape0 queries = 0")
    case True
    then show ?thesis by (simp add: cw np_index_def lenW)
  next
    case False
    then have "np_index (map (f_sum fl) (elems ?W)) 0 = Inr (f_sum fl (elems ?W ! 0))"
      by (simp add: np_index_def lenW)
    with False show ?thesis by (simp add: cw row_sum_is_one_def)
  qed
qed

subsection \<open>The exact arithmetic\<close>

text \<open>
  Over the real numbers a sum of exponentials is positive, so a softmax row with at
  least one element sums to 1 and passes the assertion.
\<close>

lemma exact_simps [simp]:
  "f_exp exact = exp" "f_div exact = (/)" "f_sum exact = sum_list"
  "f_dot exact = (\<lambda>u v. sum_list (map2 (*) u v))"
  "f_sqrt exact = (\<lambda>n. sqrt (real n))" "f_eq_one exact = (\<lambda>x. x = 1)"
  by (simp_all add: exact_def)

lemma spec_row_softmax_exact:
  "spec_row_softmax exact r = map (\<lambda>x. exp x / sum_list (map exp r)) r"
  by (simp add: spec_row_softmax_def)

lemma sum_list_exp_pos: "r \<noteq> [] \<Longrightarrow> 0 < sum_list (map exp r)" for r :: "real list"
proof (induction r)
  case Nil
  then show ?case by simp
next
  case (Cons x r)
  have "0 \<le> sum_list (map exp r)" by (rule sum_list_nonneg) auto
  moreover have "0 < exp x" by simp
  ultimately show ?case by (simp add: add_pos_nonneg)
qed

lemma sum_list_map_divide:
  "sum_list (map (\<lambda>x. f x / c) xs) = sum_list (map f xs) / c" for c :: real
  by (induction xs) (simp_all add: add_divide_distrib)

lemma sum_list_spec_row_softmax: "r \<noteq> [] \<Longrightarrow> sum_list (spec_row_softmax exact r) = 1"
  using sum_list_exp_pos [of r] by (simp add: spec_row_softmax_exact sum_list_map_divide)

lemma row_sum_is_one_exact:
  "row_sum_is_one exact (spec_row_softmax exact r) \<longleftrightarrow> r \<noteq> []"
  by (auto simp: row_sum_is_one_def sum_list_spec_row_softmax) (simp add: spec_row_softmax_def)


subsection \<open>The loop of embed\<close>

text \<open>
  The loop started at position \<open>n\<close> overwrites the rows \<open>n, n + 1, \<dots>\<close> of the output, one
  per token, and stops with \<^verbatim>\<open>IndexError\<close> at the first token that is neither the
  sentinel nor an index of a row.
\<close>

lemma np_getitem_ok:
  "token_ok embeddings t \<Longrightarrow> t \<noteq> -1 \<Longrightarrow> np_getitem embeddings t = Inr (token_row embeddings t)"
  by (auto simp: token_ok_def token_row_def np_getitem_def Let_def)

lemma np_getitem_fail:
  "\<not> token_ok embeddings t \<Longrightarrow> np_getitem embeddings t = Inl IndexError"
  by (auto simp: token_ok_def np_getitem_def Let_def)

lemma embed_loop_char:
  "n + length ts \<le> length (elems out0) \<Longrightarrow>
   embed_loop embeddings (enumerate n ts) out0 =
     (if \<forall>t \<in> set ts. token_ok embeddings t then
        Inr (out0\<lparr>elems := take n (elems out0) @ map (token_row embeddings) ts
                               @ drop (n + length ts) (elems out0)\<rparr>)
      else Inl IndexError)"
proof (induction ts arbitrary: n out0)
  case Nil
  then show ?case by simp
next
  case (Cons t ts)
  let ?row = "token_row embeddings t"
  let ?out = "set_row out0 n ?row"
  from Cons.prems have n: "n < length (elems out0)" by simp
  have len: "Suc n + length ts \<le> length (elems ?out)"
    using Cons.prems by (simp add: set_row_def)
  have upd: "take (Suc n) (elems ?out) @ map (token_row embeddings) ts
               @ drop (Suc n + length ts) (elems ?out)
           = take n (elems out0) @ map (token_row embeddings) (t # ts)
               @ drop (n + length (t # ts)) (elems out0)"
    using n by (simp add: set_row_def take_Suc_conv_app_nth)
  show ?case
  proof (cases "token_ok embeddings t")
    case False
    then have "t \<noteq> -1" by (auto simp: token_ok_def)
    with False show ?thesis by (simp add: np_getitem_fail)
  next
    case True
    have step: "embed_loop embeddings (enumerate n (t # ts)) out0
              = embed_loop embeddings (enumerate (Suc n) ts) ?out"
    proof (cases "t = -1")
      case True
      then show ?thesis by (simp add: token_row_def)
    next
      case False
      with \<open>token_ok embeddings t\<close> show ?thesis by (simp add: np_getitem_ok)
    qed
    show ?thesis
      unfolding step Cons.IH [OF len] upd using True by (simp add: set_row_def)
  qed
qed

lemma embed_char:
  "embed tokens embeddings =
     (if \<forall>t \<in> set tokens. token_ok embeddings t then
        Inr \<lparr>shape0 = length tokens, shape1 = shape1 embeddings,
             elems = map (token_row embeddings) tokens\<rparr>
      else Inl IndexError)"
  unfolding embed_def
  by (subst embed_loop_char) (simp_all add: np_zeros_def)

subsection \<open>Shifting the argument of the softmax\<close>

text \<open>
  Subtracting one number from every element along the axis multiplies numerator and
  denominator by the same positive factor. The maximum along the axis is such a number.
\<close>

lemma exp_shift_quotient:
  "exp (a - m) / sum_list (map (\<lambda>b. exp (b - m)) bs) = exp a / sum_list (map exp bs)"
  for a m :: real
proof -
  have "sum_list (map (\<lambda>b. exp (b - m)) bs) = sum_list (map exp bs) / exp m"
    by (simp add: exp_diff sum_list_map_divide)
  then show ?thesis by (simp add: exp_diff)
qed

lemma spec_row_softmax_shift:
  "spec_row_softmax exact (map (\<lambda>v. v - m) r) = spec_row_softmax exact r"
  by (simp add: spec_row_softmax_exact comp_def exp_shift_quotient)

lemma softmax_axis0:
  assumes "wf_array x" and "axis = 0 \<or> axis = -2"
  shows "softmax exact x axis =
         Inr \<lparr>shape0 = shape0 x, shape1 = shape1 x,
              elems = map (\<lambda>i. map (\<lambda>j. exp (elems x ! i ! j) /
                                        sum_list (map (\<lambda>i'. exp (elems x ! i' ! j)) [0..<shape0 x]))
                                 [0..<shape1 x])
                          [0..<shape0 x]\<rparr>"
proof -
  let ?r = "shape0 x" and ?c = "shape1 x"
  let ?cs = "map (\<lambda>j. sum_list (map (\<lambda>r. r ! j) (elems (np_exp exact x)))) [0..<?c]"
  let ?d = "\<lparr>shape0 = 1, shape1 = length ?cs, elems = [?cs]\<rparr>"
  have len: "length (elems x) = ?r" using assms(1) by (rule wf_arrayD)
  have rows: "\<And>i. i < ?r \<Longrightarrow> length (elems x ! i) = ?c" using assms(1) by (rule wf_arrayD)
  have s: "np_sum exact (np_exp exact x) axis = Inr ?cs"
    using assms(2) by (auto simp: np_sum_def)
  have e: "np_expand_dims ?cs axis = Inr ?d"
    using assms(2) by (auto simp: np_expand_dims_def)
  have d: "np_divide exact (np_exp exact x) ?d =
           Inr \<lparr>shape0 = ?r, shape1 = ?c,
                elems = map (\<lambda>i. map (\<lambda>j. elems (np_exp exact x) ! i ! j / elems ?d ! 0 ! j) [0..<?c])
                            [0..<?r]\<rparr>"
    unfolding np_divide_def
    using np_broadcast_row [of ?d "np_exp exact x" "(/)"] by simp
  have entry: "elems (np_exp exact x) ! i ! j / elems ?d ! 0 ! j
             = exp (elems x ! i ! j) / sum_list (map (\<lambda>i'. exp (elems x ! i' ! j)) [0..<?r])"
    if i: "i < ?r" and j: "j < ?c" for i j
  proof -
    have "map (\<lambda>r. r ! j) (elems (np_exp exact x)) = map (\<lambda>i'. exp (elems x ! i' ! j)) [0..<?r]"
      by (rule nth_equalityI) (simp_all add: len rows j)
    then show ?thesis using i j by (simp add: len rows)
  qed
  have "map (\<lambda>i. map (\<lambda>j. elems (np_exp exact x) ! i ! j / elems ?d ! 0 ! j) [0..<?c]) [0..<?r]
      = map (\<lambda>i. map (\<lambda>j. exp (elems x ! i ! j) /
                           sum_list (map (\<lambda>i'. exp (elems x ! i' ! j)) [0..<?r])) [0..<?c]) [0..<?r]"
    by (intro map_cong refl) (simp only: entry set_upt atLeastLessThan_iff)
  with s e d show ?thesis
    by (simp add: softmax_def)
qed

lemma softmax_bad_axis:
  "axis \<notin> {-2, -1, 0, 1} \<Longrightarrow> softmax fl x axis = Inl AxisError"
  by (simp add: softmax_def np_sum_def)

lemma softmax_stable_bad_axis:
  "axis \<notin> {-2, -1, 0, 1} \<Longrightarrow> softmax_stable x axis = Inl AxisError"
  by (simp add: softmax_stable_def np_max_def)

lemma softmax_stable_axis1:
  assumes "wf_array x" and ax: "axis = 1 \<or> axis = -1"
  shows "softmax_stable x axis = softmax exact x axis"
proof -
  let ?r = "shape0 x" and ?c = "shape1 x"
  let ?ms = "map max_list (elems x)"
  let ?d = "\<lparr>shape0 = length ?ms, shape1 = 1, elems = map (\<lambda>m. [m]) ?ms\<rparr>"
  let ?shifted = "\<lparr>shape0 = ?r, shape1 = ?c,
                   elems = map (\<lambda>i. map (\<lambda>j. elems x ! i ! j - elems ?d ! i ! 0) [0..<?c])
                               [0..<?r]\<rparr>"
  have len: "length (elems x) = ?r" using assms(1) by (rule wf_arrayD)
  have rows: "\<And>i. i < ?r \<Longrightarrow> length (elems x ! i) = ?c" using assms(1) by (rule wf_arrayD)
  have m: "np_max x axis = Inr ?ms" using ax by (auto simp: np_max_def)
  have e: "np_expand_dims ?ms axis = Inr ?d" using ax by (auto simp: np_expand_dims_def)
  have sub: "np_subtract x ?d = Inr ?shifted"
    unfolding np_subtract_def using np_broadcast_column [of ?d x "(-)"] by (simp add: len)
  have wf: "wf_array ?shifted" by (simp add: wf_array_def list_all_iff)
  have row: "elems ?shifted ! i = map (\<lambda>v. v - max_list (elems x ! i)) (elems x ! i)"
    if "i < ?r" for i
    using that by (auto simp: len rows intro!: nth_equalityI)
  have "map (spec_row_softmax exact) (elems ?shifted) = map (spec_row_softmax exact) (elems x)"
  proof (rule nth_equalityI)
    show "length (map (spec_row_softmax exact) (elems ?shifted)) = length (map (spec_row_softmax exact) (elems x))"
      by (simp add: len)
  next
    fix i
    assume "i < length (map (spec_row_softmax exact) (elems ?shifted))"
    then have i: "i < ?r" by simp
    have "spec_row_softmax exact (elems ?shifted ! i) = spec_row_softmax exact (elems x ! i)"
      unfolding row [OF i] by (rule spec_row_softmax_shift)
    then show "map (spec_row_softmax exact) (elems ?shifted) ! i = map (spec_row_softmax exact) (elems x) ! i"
      using i by (simp add: len)
  qed
  then have "softmax exact ?shifted axis = softmax exact x axis"
    using softmax_axis1 [OF wf ax] softmax_axis1 [OF assms(1) ax] by simp
  then show ?thesis
    by (simp only: softmax_stable_def m e sub sum.case)
qed

lemma softmax_stable_axis0:
  assumes "wf_array x" and ax: "axis = 0 \<or> axis = -2"
  shows "softmax_stable x axis = softmax exact x axis"
proof -
  let ?r = "shape0 x" and ?c = "shape1 x"
  let ?ms = "map (\<lambda>j. max_list (map (\<lambda>r. r ! j) (elems x))) [0..<?c]"
  let ?d = "\<lparr>shape0 = 1, shape1 = length ?ms, elems = [?ms]\<rparr>"
  let ?shifted = "\<lparr>shape0 = ?r, shape1 = ?c,
                   elems = map (\<lambda>i. map (\<lambda>j. elems x ! i ! j - elems ?d ! 0 ! j) [0..<?c])
                               [0..<?r]\<rparr>"
  have m: "np_max x axis = Inr ?ms" using ax by (auto simp: np_max_def)
  have e: "np_expand_dims ?ms axis = Inr ?d" using ax by (auto simp: np_expand_dims_def)
  have sub: "np_subtract x ?d = Inr ?shifted"
    unfolding np_subtract_def using np_broadcast_row [of ?d x "(-)"] by simp
  have wf: "wf_array ?shifted" by (simp add: wf_array_def list_all_iff)
  have at: "elems ?shifted ! i ! j = elems x ! i ! j - ?ms ! j" if "i < ?r" and "j < ?c" for i j
    using that by simp
  have entry: "exp (elems ?shifted ! i ! j) /
                 sum_list (map (\<lambda>i'. exp (elems ?shifted ! i' ! j)) [0..<?r])
             = exp (elems x ! i ! j) / sum_list (map (\<lambda>i'. exp (elems x ! i' ! j)) [0..<?r])"
    if i: "i < ?r" and j: "j < ?c" for i j
  proof -
    have "map (\<lambda>i'. exp (elems ?shifted ! i' ! j)) [0..<?r]
        = map (\<lambda>b. exp (b - ?ms ! j)) (map (\<lambda>i'. elems x ! i' ! j) [0..<?r])"
      using j by (simp add: comp_def)
    moreover have "map (\<lambda>i'. exp (elems x ! i' ! j)) [0..<?r]
        = map exp (map (\<lambda>i'. elems x ! i' ! j) [0..<?r])"
      by (simp add: comp_def)
    ultimately show ?thesis
      unfolding at [OF i j] by (simp only: exp_shift_quotient)
  qed
  have "map (\<lambda>i. map (\<lambda>j. exp (elems ?shifted ! i ! j) /
                 sum_list (map (\<lambda>i'. exp (elems ?shifted ! i' ! j)) [0..<?r])) [0..<?c]) [0..<?r]
      = map (\<lambda>i. map (\<lambda>j. exp (elems x ! i ! j) /
                 sum_list (map (\<lambda>i'. exp (elems x ! i' ! j)) [0..<?r])) [0..<?c]) [0..<?r]"
    by (intro map_cong refl) (simp only: entry set_upt atLeastLessThan_iff)
  then have "softmax exact ?shifted axis = softmax exact x axis"
    using softmax_axis0 [OF wf ax] softmax_axis0 [OF assms(1) ax] by simp
  then show ?thesis
    by (simp only: softmax_stable_def m e sub sum.case)
qed

subsection \<open>The two calls of attention_qkv\<close>


lemma calculate_weights_exact:
  assumes "wf_array queries" and "wf_array keys" and "shape1 queries = shape1 keys"
    and "0 < shape0 queries" and "0 < shape0 keys"
  shows "calculate_weights exact queries keys = Inr (spec_weights exact queries keys)"
proof -
  from assms(1,4) obtain q0 qs where qs: "elems queries = q0 # qs"
    by (cases "elems queries") (auto simp: wf_array_def)
  from assms(2,5) have "spec_scores exact keys q0 \<noteq> []"
    by (auto simp: spec_scores_def wf_array_def)
  then have "row_sum_is_one exact (elems (spec_weights exact queries keys) ! 0)"
    by (simp add: spec_weights_def qs row_sum_is_one_exact)
  with assms show ?thesis
    by (simp add: calculate_weights_char)
qed


section \<open>The claims\<close>

subsection \<open>C1: the weight matrix is the row softmax of the scaled scores\<close>




subsection \<open>C2: every row of the weight matrix is a probability distribution\<close>

text \<open>
  C2 says that every row of the weight matrix \<open>calculate_weights\<close> returns sums to 1 and
  has its entries between 0 and 1. The assertion of the code, worded
  \<^verbatim>\<open>"Each row in weights must sum to 1"\<close>, reads the first row only: two query matrices
  with the same first row either both fail the assertion or both return, whatever their
  other rows are, and what is returned is the softmax matrix as computed, its later rows
  untested. On IEEE doubles the queries \<open>[[0], [30]]\<close> and the key \<open>[[30]]\<close> pass on the
  first row and return the second row \<^verbatim>\<open>[nan]\<close>, since \<^verbatim>\<open>np.exp(900.0)\<close> is \<^verbatim>\<open>inf\<close>.
\<close>

theorem calculate_weights_guard_reads_first_row:
  assumes "has_shape queries q D" and "has_shape queries' q' D" and "has_shape keys k D"
    and "0 < q" and "0 < q'" and "elems queries' ! 0 = elems queries ! 0"
  shows "case calculate_weights fl queries keys of
           Inl e \<Rightarrow> e = AssertionError \<and> calculate_weights fl queries' keys = Inl AssertionError
         | Inr W \<Rightarrow> calculate_weights fl queries' keys = Inr (spec_weights fl queries' keys)"
proof -
  from assms(1,4) obtain q0 qs where qs: "elems queries = q0 # qs"
    by (cases "elems queries") (auto simp: has_shape_def wf_array_def)
  from assms(2,5) obtain q0' qs' where qs': "elems queries' = q0' # qs'"
    by (cases "elems queries'") (auto simp: has_shape_def wf_array_def)
  have same: "elems (spec_weights fl queries' keys) ! 0 = elems (spec_weights fl queries keys) ! 0"
    using assms(6) by (simp add: spec_weights_def qs qs')
  have 1: "calculate_weights fl queries keys =
           (if row_sum_is_one fl (elems (spec_weights fl queries keys) ! 0)
            then Inr (spec_weights fl queries keys) else Inl AssertionError)"
    using assms(1,3,4) calculate_weights_char [of queries keys fl] by (simp add: has_shape_def)
  have 2: "calculate_weights fl queries' keys =
           (if row_sum_is_one fl (elems (spec_weights fl queries keys) ! 0)
            then Inr (spec_weights fl queries' keys) else Inl AssertionError)"
    using assms(2,3,5) calculate_weights_char [of queries' keys fl]
    by (simp add: has_shape_def same)
  show ?thesis by (simp add: 1 2)
qed

theorem calculate_weights_guard_reads_first_row_witness:
  "has_shape \<lparr>shape0 = 1, shape1 = 1, elems = [[0 :: real]]\<rparr> 1 1 \<and>
   has_shape \<lparr>shape0 = 2, shape1 = 1, elems = [[0], [30 :: real]]\<rparr> 2 1 \<and>
   has_shape \<lparr>shape0 = 1, shape1 = 1, elems = [[30 :: real]]\<rparr> 1 1 \<and>
   elems \<lparr>shape0 = 2, shape1 = 1, elems = [[0], [30 :: real]]\<rparr> ! 0
     = elems \<lparr>shape0 = 1, shape1 = 1, elems = [[0 :: real]]\<rparr> ! 0 \<and>
   calculate_weights exact \<lparr>shape0 = 2, shape1 = 1, elems = [[0], [30]]\<rparr>
                           \<lparr>shape0 = 1, shape1 = 1, elems = [[30]]\<rparr>
     = Inr (spec_weights exact \<lparr>shape0 = 2, shape1 = 1, elems = [[0], [30]]\<rparr>
                               \<lparr>shape0 = 1, shape1 = 1, elems = [[30]]\<rparr>)"
proof -
  let ?Q = "\<lparr>shape0 = 1, shape1 = 1, elems = [[0 :: real]]\<rparr>"
  let ?Q' = "\<lparr>shape0 = 2, shape1 = 1, elems = [[0], [30 :: real]]\<rparr>"
  let ?K = "\<lparr>shape0 = 1, shape1 = 1, elems = [[30 :: real]]\<rparr>"
  have a: "has_shape ?Q 1 1" by (simp add: has_shape_def wf_array_def)
  have a': "has_shape ?Q' 2 1" by (simp add: has_shape_def wf_array_def)
  have b: "has_shape ?K 1 1" by (simp add: has_shape_def wf_array_def)
  have p: "(0::nat) < 1" "(0::nat) < 2" by simp_all
  have e: "elems ?Q' ! 0 = elems ?Q ! 0" by simp
  have r: "calculate_weights exact ?Q ?K = Inr (spec_weights exact ?Q ?K)"
    by (rule calculate_weights_exact) (simp_all add: wf_array_def)
  show ?thesis
    using a a' b e calculate_weights_guard_reads_first_row [OF a a' b p e, of exact]
    by (simp only: r sum.case simp_thms)
qed

subsection \<open>C3: the attention output is the weight matrix times the values\<close>




subsection \<open>C4: differing embedding dimensions\<close>

text \<open>
  C4: when the queries and the keys differ in their number of columns,
  \<open>calculate_weights\<close> fails with the shape error of \<^verbatim>\<open>np.dot\<close>; nothing in the function
  catches it, so the error is the result of the call.
\<close>

theorem calculate_weights_shape_mismatch:
  "shape1 queries \<noteq> shape1 keys \<Longrightarrow> calculate_weights fl queries keys = Inl ShapeMismatch"
  by (simp add: calculate_weights_def np_dot_def np_T_def)

theorem calculate_weights_shape_mismatch_witness:
  "shape1 \<lparr>shape0 = 1, shape1 = 2, elems = [[1, 2 :: real]]\<rparr>
     \<noteq> shape1 \<lparr>shape0 = 1, shape1 = 3, elems = [[1, 2, 3 :: real]]\<rparr> \<and>
   calculate_weights exact \<lparr>shape0 = 1, shape1 = 2, elems = [[1, 2]]\<rparr>
                           \<lparr>shape0 = 1, shape1 = 3, elems = [[1, 2, 3]]\<rparr> = Inl ShapeMismatch"
  using calculate_weights_shape_mismatch
    [of "\<lparr>shape0 = 1, shape1 = 2, elems = [[1, 2 :: real]]\<rparr>"
        "\<lparr>shape0 = 1, shape1 = 3, elems = [[1, 2, 3 :: real]]\<rparr>" exact]
  by simp

subsection \<open>C5: keys and values that differ in their number of rows\<close>




subsection \<open>C6: self-attention of a single row\<close>

text \<open>
  C6 says that a matrix \<open>M\<close> of one row gives \<open>calculate_weights M M = [[1]]\<close>. What the
  code computes is the weight \<open>w = e / sum [e]\<close>, for \<open>e\<close> the exponential of the scaled
  product of the row with itself; it returns \<open>[[w]]\<close> when the sum of \<open>[w]\<close> compares equal
  to 1 and fails the assertion otherwise. Over the real numbers \<open>w\<close> is 1. On IEEE
  doubles \<open>e\<close> is \<^verbatim>\<open>inf\<close> once the score exceeds about 709.78, as for \<open>M = [[30]]\<close>; then
  \<open>w\<close> is \<^verbatim>\<open>inf / inf = nan\<close> and the assertion fails.
\<close>

theorem self_attention_single_row_result:
  assumes "has_shape M 1 D"
  shows "calculate_weights fl M M =
         (let m = elems M ! 0;
              e = f_exp fl (f_div fl (f_dot fl m m) (f_sqrt fl D));
              w = f_div fl e (f_sum fl [e])
          in if f_eq_one fl (f_sum fl [w])
             then Inr \<lparr>shape0 = 1, shape1 = 1, elems = [[w]]\<rparr>
             else Inl AssertionError)"
proof -
  from assms obtain m where m: "elems M = [m]"
    by (cases "elems M") (auto simp: has_shape_def wf_array_def)
  have "spec_weights fl M M =
        \<lparr>shape0 = 1, shape1 = 1,
         elems = [[f_div fl (f_exp fl (f_div fl (f_dot fl m m) (f_sqrt fl D)))
                     (f_sum fl [f_exp fl (f_div fl (f_dot fl m m) (f_sqrt fl D))])]]\<rparr>"
    using assms by (simp add: spec_weights_def spec_scores_def spec_row_softmax_def m has_shape_def)
  with assms show ?thesis
    using calculate_weights_char [of M M fl]
    by (simp add: has_shape_def m row_sum_is_one_def Let_def)
qed

theorem self_attention_single_row_result_witness:
  "has_shape \<lparr>shape0 = 1, shape1 = 2, elems = [[3, 4 :: real]]\<rparr> 1 2 \<and>
   calculate_weights exact \<lparr>shape0 = 1, shape1 = 2, elems = [[3, 4]]\<rparr>
                           \<lparr>shape0 = 1, shape1 = 2, elems = [[3, 4]]\<rparr>
     = Inr \<lparr>shape0 = 1, shape1 = 1, elems = [[1]]\<rparr>"
proof -
  have a: "has_shape \<lparr>shape0 = 1, shape1 = 2, elems = [[3, 4 :: real]]\<rparr> 1 2"
    by (simp add: has_shape_def wf_array_def)
  show ?thesis
    using a self_attention_single_row_result [OF a, of exact] by (simp add: Let_def)
qed

subsection \<open>C7: out-of-vocabulary words embed as zero rows\<close>

text \<open>
  C7: tokenizing \<^verbatim>\<open>"hello world"\<close> against the vocabulary \<^verbatim>\<open>{"hello": 0}\<close> gives \<open>[0, -1]\<close>,
  and embedding these tokens over the matrix \<open>[[1, 2]]\<close> gives \<open>[[1, 2], [0, 0]]\<close>. For
  every token sequence, \<open>embed\<close> returns one row per token unless some token other than
  \<open>-1\<close> is outside the index range of the matrix, and in what it returns every position
  that holds \<open>-1\<close> is a row of zeros, wherever it stands.
\<close>

theorem tokenize_embed_out_of_vocabulary:
  "tokenize ''hello world'' [''hello'' \<mapsto> 0] = [0, -1] \<and>
   embed [0, -1] \<lparr>shape0 = 1, shape1 = 2, elems = [[1, 2 :: real]]\<rparr>
     = Inr \<lparr>shape0 = 2, shape1 = 2, elems = [[1, 2], [0, 0]]\<rparr> \<and>
   (case embed tokens embeddings of
      Inl e \<Rightarrow> \<exists>t \<in> set tokens. t \<noteq> -1 \<and>
                 (t < - int (shape0 embeddings) \<or> int (shape0 embeddings) \<le> t)
    | Inr out \<Rightarrow> shape0 out = length tokens \<and> length (elems out) = length tokens \<and>
        (\<forall>i < length tokens. tokens ! i = -1 \<longrightarrow> elems out ! i = replicate (shape1 embeddings) 0))"
proof (intro conjI)
  show "tokenize ''hello world'' [''hello'' \<mapsto> 0] = [0, -1]"
    by code_simp
  show "embed [0, -1] \<lparr>shape0 = 1, shape1 = 2, elems = [[1, 2 :: real]]\<rparr>
     = Inr \<lparr>shape0 = 2, shape1 = 2, elems = [[1, 2], [0, 0]]\<rparr>"
    by code_simp
  show "case embed tokens embeddings of
      Inl e \<Rightarrow> \<exists>t \<in> set tokens. t \<noteq> -1 \<and>
                 (t < - int (shape0 embeddings) \<or> int (shape0 embeddings) \<le> t)
    | Inr out \<Rightarrow> shape0 out = length tokens \<and> length (elems out) = length tokens \<and>
        (\<forall>i < length tokens. tokens ! i = -1 \<longrightarrow> elems out ! i = replicate (shape1 embeddings) 0)"
  proof (cases "\<forall>t \<in> set tokens. token_ok embeddings t")
    case True
    then show ?thesis by (simp add: embed_char token_row_def)
  next
    case False
    then show ?thesis by (auto simp: embed_char token_ok_def)
  qed
qed

theorem tokenize_embed_out_of_vocabulary_witness:
  "case embed [-1, 0, -1] \<lparr>shape0 = 1, shape1 = 2, elems = [[1, 2 :: real]]\<rparr> of
     Inl e \<Rightarrow> False
   | Inr out \<Rightarrow> (2::nat) < length [-1, 0, -1 :: int] \<and> [-1, 0, -1 :: int] ! 2 = -1 \<and>
       elems out ! 2 = [0, 0]"
  using tokenize_embed_out_of_vocabulary
    [of "[-1, 0, -1]" "\<lparr>shape0 = 1, shape1 = 2, elems = [[1, 2 :: real]]\<rparr>"]
  by (auto split: sum.splits simp: numeral_2_eq_2)

subsection \<open>C10: only the value -1 is the sentinel\<close>

text \<open>
  C10: a token below \<open>-1\<close> is not replaced by a row of zeros and is not rejected by any
  check of \<open>embed\<close>: when it is at least \<open>-n\<close>, for \<open>n\<close> rows, the output row is the row
  \<open>n + token\<close> of the embedding matrix, as Python's negative indexing counts from the end.
  A token at or beyond \<open>n\<close> (and a token below both \<open>-1\<close> and \<open>-n\<close>) makes the row lookup
  fail with \<^verbatim>\<open>IndexError\<close>.
\<close>

theorem embed_negative_tokens:
  assumes "i < length tokens"
  shows "(tokens ! i < -1 \<and> - int (shape0 embeddings) \<le> tokens ! i \<longrightarrow>
            (case embed tokens embeddings of
               Inl e \<Rightarrow> e = IndexError \<and>
                 (\<exists>t \<in> set tokens. t \<noteq> -1 \<and>
                    (t < - int (shape0 embeddings) \<or> int (shape0 embeddings) \<le> t))
             | Inr out \<Rightarrow>
                 elems out ! i = elems embeddings ! nat (int (shape0 embeddings) + tokens ! i))) \<and>
         (int (shape0 embeddings) \<le> tokens ! i \<or>
          (tokens ! i < -1 \<and> tokens ! i < - int (shape0 embeddings)) \<longrightarrow>
            embed tokens embeddings = Inl IndexError)"
proof (intro conjI impI)
  assume t: "tokens ! i < -1 \<and> - int (shape0 embeddings) \<le> tokens ! i"
  show "case embed tokens embeddings of
               Inl e \<Rightarrow> e = IndexError \<and>
                 (\<exists>t \<in> set tokens. t \<noteq> -1 \<and>
                    (t < - int (shape0 embeddings) \<or> int (shape0 embeddings) \<le> t))
             | Inr out \<Rightarrow>
                 elems out ! i = elems embeddings ! nat (int (shape0 embeddings) + tokens ! i)"
  proof (cases "\<forall>t \<in> set tokens. token_ok embeddings t")
    case True
    then show ?thesis using assms t by (simp add: embed_char token_row_def)
  next
    case False
    then show ?thesis by (auto simp: embed_char token_ok_def)
  qed
next
  assume "int (shape0 embeddings) \<le> tokens ! i \<or>
          (tokens ! i < -1 \<and> tokens ! i < - int (shape0 embeddings))"
  then have "\<not> token_ok embeddings (tokens ! i)" by (auto simp: token_ok_def)
  moreover have "tokens ! i \<in> set tokens" using assms by simp
  ultimately show "embed tokens embeddings = Inl IndexError"
    by (auto simp: embed_char)
qed

theorem embed_negative_tokens_witness:
  "(0::nat) < length [-2 :: int] \<and> [-2 :: int] ! 0 < -1 \<and>
   - int (shape0 \<lparr>shape0 = 2, shape1 = 2, elems = [[1, 2], [3, 4 :: real]]\<rparr>) \<le> [-2] ! 0 \<and>
   embed [-2] \<lparr>shape0 = 2, shape1 = 2, elems = [[1, 2], [3, 4 :: real]]\<rparr>
     = Inr \<lparr>shape0 = 1, shape1 = 2, elems = [[1, 2]]\<rparr> \<and>
   (0::nat) < length [2 :: int] \<and>
   int (shape0 \<lparr>shape0 = 2, shape1 = 2, elems = [[1, 2], [3, 4 :: real]]\<rparr>) \<le> [2] ! 0 \<and>
   embed [2] \<lparr>shape0 = 2, shape1 = 2, elems = [[1, 2], [3, 4 :: real]]\<rparr> = Inl IndexError"
proof -
  have l: "(0::nat) < length [-2 :: int]" and l': "(0::nat) < length [2 :: int]" by simp_all
  have e: "embed [-2] \<lparr>shape0 = 2, shape1 = 2, elems = [[1, 2], [3, 4 :: real]]\<rparr>
     = Inr \<lparr>shape0 = 1, shape1 = 2, elems = [[1, 2]]\<rparr>"
    by code_simp
  show ?thesis
    using embed_negative_tokens [OF l', of "\<lparr>shape0 = 2, shape1 = 2, elems = [[1, 2], [3, 4 :: real]]\<rparr>"]
      embed_negative_tokens [OF l, of "\<lparr>shape0 = 2, shape1 = 2, elems = [[1, 2], [3, 4 :: real]]\<rparr>"] e
    by simp
qed

subsection \<open>C8: the naive softmax and the stabilised softmax\<close>

text \<open>
  C8: for every matrix and every axis, the softmax of the code (exponentiate, divide by
  the sum of the exponentials along the axis) and the variant that subtracts the maximum
  along the axis before exponentiating give the same result over the real numbers; for an
  axis that a two-dimensional array does not have, both raise \<^verbatim>\<open>AxisError\<close>.
\<close>

theorem softmax_equals_stable_softmax:
  assumes "wf_array x"
  shows "softmax exact x axis = softmax_stable x axis"
proof -
  consider "axis = 1 \<or> axis = -1" | "axis = 0 \<or> axis = -2" | "axis \<notin> {-2, -1, 0, 1}"
    by auto
  then show ?thesis
  proof cases
    case 1
    then show ?thesis using assms by (simp add: softmax_stable_axis1)
  next
    case 2
    then show ?thesis using assms by (simp add: softmax_stable_axis0)
  next
    case 3
    then show ?thesis by (simp add: softmax_bad_axis softmax_stable_bad_axis)
  qed
qed

theorem softmax_equals_stable_softmax_witness:
  "wf_array \<lparr>shape0 = 2, shape1 = 2, elems = [[1, 2], [3, 4]]\<rparr> \<and>
   softmax exact \<lparr>shape0 = 2, shape1 = 2, elems = [[1, 2], [3, 4]]\<rparr> 1
     = softmax_stable \<lparr>shape0 = 2, shape1 = 2, elems = [[1, 2], [3, 4]]\<rparr> 1"
proof -
  have a: "wf_array \<lparr>shape0 = 2, shape1 = 2, elems = [[1, 2], [3, 4]]\<rparr>"
    by (simp add: wf_array_def)
  show ?thesis
    using a softmax_equals_stable_softmax [OF a, of 1] by simp
qed

end
